theory Spec2Isabelle
  imports Main
begin

section \<open>The hero video controller of static/js/home.js\<close>

text \<open>
  The script registers one listener for the document's DOMContentLoaded event. That
  listener looks three elements up by id, returns early when one of them is null, and
  otherwise attaches a click listener to the play button, a click listener to the pause
  button and an ended listener to the video.

  The page is modelled as an explicit store: the elements of the document in tree order,
  a reference to an element being its position in that list, each element naming its
  parent, and the event listener list of the page. Every mutation of the source is an
  update of that store.
\<close>

subsection \<open>Elements, class lists and media calls\<close>

datatype media_call = Play | Pause

datatype exn = TypeError

text \<open>
  An element carries its id attribute, the tokens of its \<open>classList\<close>, whether it is a
  media element (one that has \<open>play()\<close> and \<open>pause()\<close>), the playback commands it has
  received so far, its parent element (none for an element at the top), and, in
  \<open>other\<close>, what else a script could read of it (further attributes, the style
  computed for it when an event arrives). The script never names that last part, and
  the model never writes it.
\<close>

record 'x element =
  elem_id :: string
  classList :: "string list"
  media :: bool
  calls :: "media_call list"
  parent :: "nat option"
  other :: 'x

text \<open>
  A listener closes over the three constants \<open>video\<close>, \<open>playButton\<close> and
  \<open>pauseButton\<close> of the enclosing function, in that order.
\<close>

datatype callback =
    PlayButtonClick nat nat nat
  | PauseButtonClick nat nat nat
  | VideoEnded nat nat nat

record 'x page =
  elements :: "'x element list"
  listeners :: "(nat \<times> string \<times> callback) list"
  reported :: "exn list"

text \<open>\<open>document.getElementById\<close>: the first element in tree order with the id, or null.\<close>

fun getElementById :: "'x element list \<Rightarrow> string \<Rightarrow> nat option" where
  "getElementById [] i = None"
| "getElementById (e # es) i =
     (if elem_id e = i then Some 0 else map_option Suc (getElementById es i))"

text \<open>
  \<open>DOMTokenList.add\<close> appends the token unless the list has it; \<open>DOMTokenList.remove\<close>
  deletes it.
\<close>

definition token_add :: "string \<Rightarrow> string list \<Rightarrow> string list" where
  "token_add c ts = (if c \<in> set ts then ts else ts @ [c])"

definition token_remove :: "string \<Rightarrow> string list \<Rightarrow> string list" where
  "token_remove c ts = filter (\<lambda>t. t \<noteq> c) ts"

definition classList_add :: "nat \<Rightarrow> string \<Rightarrow> 'x element list \<Rightarrow> 'x element list" where
  "classList_add r c els = els[r := (els ! r)\<lparr>classList := token_add c (classList (els ! r))\<rparr>]"

definition classList_remove :: "nat \<Rightarrow> string \<Rightarrow> 'x element list \<Rightarrow> 'x element list" where
  "classList_remove r c els =
     els[r := (els ! r)\<lparr>classList := token_remove c (classList (els ! r))\<rparr>]"

text \<open>
  Calling \<open>play()\<close> or \<open>pause()\<close> on an element that is not a media element throws a
  TypeError (the property is undefined); on a media element the call is recorded.
\<close>

definition call_method :: "media_call \<Rightarrow> nat \<Rightarrow> 'x element list \<Rightarrow> exn option \<times> 'x element list" where
  "call_method c r els =
     (if media (els ! r)
      then (None, els[r := (els ! r)\<lparr>calls := calls (els ! r) @ [c]\<rparr>])
      else (Some TypeError, els))"

subsection \<open>The three listeners\<close>

definition playButton_click ::
  "nat \<Rightarrow> nat \<Rightarrow> nat \<Rightarrow> 'x element list \<Rightarrow> exn option \<times> 'x element list" where
  "playButton_click video playButton pauseButton els =
     (case call_method Play video els of
        (Some e, els1) \<Rightarrow> (Some e, els1)
      | (None, els1) \<Rightarrow>
          (None, classList_remove pauseButton ''pause-hidden''
                   (classList_add playButton ''d-none'' els1)))"

definition pauseButton_click ::
  "nat \<Rightarrow> nat \<Rightarrow> nat \<Rightarrow> 'x element list \<Rightarrow> exn option \<times> 'x element list" where
  "pauseButton_click video playButton pauseButton els = call_method Pause video els"

definition video_ended ::
  "nat \<Rightarrow> nat \<Rightarrow> nat \<Rightarrow> 'x element list \<Rightarrow> exn option \<times> 'x element list" where
  "video_ended video playButton pauseButton els =
     (None, classList_remove playButton ''d-none''
              (classList_add pauseButton ''pause-hidden'' els))"

fun invoke :: "callback \<Rightarrow> 'x element list \<Rightarrow> exn option \<times> 'x element list" where
  "invoke (PlayButtonClick v p q) els = playButton_click v p q els"
| "invoke (PauseButtonClick v p q) els = pauseButton_click v p q els"
| "invoke (VideoEnded v p q) els = video_ended v p q els"

subsection \<open>Registration and dispatch\<close>

text \<open>Each arrow function of the source is a fresh closure, so a registration always appends.\<close>

definition addEventListener :: "nat \<Rightarrow> string \<Rightarrow> callback \<Rightarrow> 'x page \<Rightarrow> 'x page" where
  "addEventListener target ty cb s = s\<lparr>listeners := listeners s @ [(target, ty, cb)]\<rparr>"

definition DOMContentLoaded :: "'x page \<Rightarrow> 'x page" where
  "DOMContentLoaded s =
     (let video = getElementById (elements s) ''heroVideo'';
          playButton = getElementById (elements s) ''overlayPlayHeroVideo'';
          pauseButton = getElementById (elements s) ''pauseHeroVideo''
      in case (video, playButton, pauseButton) of
           (Some v, Some p, Some q) \<Rightarrow>
             addEventListener v ''ended'' (VideoEnded v p q)
               (addEventListener q ''click'' (PauseButtonClick v p q)
                 (addEventListener p ''click'' (PlayButtonClick v p q) s))
         | _ \<Rightarrow> s)"

text \<open>
  A listener that throws ends there; the exception is reported and the dispatch goes on
  with the next listener.
\<close>

definition run_listener :: "callback \<Rightarrow> 'x page \<Rightarrow> 'x page" where
  "run_listener cb s =
     (case invoke cb (elements s) of
        (None, els) \<Rightarrow> s\<lparr>elements := els\<rparr>
      | (Some e, els) \<Rightarrow> s\<lparr>elements := els, reported := reported s @ [e]\<rparr>)"

text \<open>
  At one element of its path an event of type \<open>ty\<close> runs the listeners registered on
  that element for that type, in registration order. For an event that does not bubble,
  such as the \<open>ended\<close> event of a media element, the target is the only such element,
  and this is the whole dispatch.
\<close>

definition dispatchEvent :: "nat \<Rightarrow> string \<Rightarrow> 'x page \<Rightarrow> 'x page" where
  "dispatchEvent target ty s =
     fold run_listener
       (map (\<lambda>l. snd (snd l)) (filter (\<lambda>l. fst l = target \<and> fst (snd l) = ty) (listeners s))) s"

fun dispatchAll :: "(nat \<times> string) list \<Rightarrow> 'x page \<Rightarrow> 'x page" where
  "dispatchAll [] s = s"
| "dispatchAll ((target, ty) # evs) s = dispatchAll evs (dispatchEvent target ty s)"

text \<open>
  The path of an event: the target, then its parent, and so on to the top. The elements
  are in tree order, where a parent comes before its children; a parent entry that does
  not come before the element ends the path.
\<close>

function event_path :: "'x element list \<Rightarrow> nat \<Rightarrow> nat list" where
  "event_path els i =
     (if i < length els
      then (case parent (els ! i) of
              None \<Rightarrow> [i]
            | Some j \<Rightarrow> if j < i then i # event_path els j else [i])
      else [])"
  by pat_completeness auto
termination
  by (relation "measure snd") auto

declare event_path.simps [simp del]

text \<open>
  A click bubbles. The script registers its listeners without the capture flag and none
  of them stops the propagation, so the event runs the listeners of the target and then
  those of every ancestor, along the path fixed when the dispatch starts.
\<close>

definition dispatchBubbling :: "nat \<Rightarrow> string \<Rightarrow> 'x page \<Rightarrow> 'x page" where
  "dispatchBubbling target ty s =
     fold (\<lambda>i. dispatchEvent i ty) (event_path (elements s) target) s"

subsection \<open>The bound controller\<close>

text \<open>
  After a successful initialisation the page has exactly the three listeners, on three
  different elements of the document.
\<close>

definition bound :: "nat \<Rightarrow> nat \<Rightarrow> nat \<Rightarrow> 'x page \<Rightarrow> bool" where
  "bound v p q s \<longleftrightarrow>
     listeners s = [(p, ''click'', PlayButtonClick v p q),
                    (q, ''click'', PauseButtonClick v p q),
                    (v, ''ended'', VideoEnded v p q)] \<and>
     v < length (elements s) \<and> p < length (elements s) \<and> q < length (elements s) \<and>
     v \<noteq> p \<and> v \<noteq> q \<and> p \<noteq> q"

text \<open>
  The rest of an element, which the stylesheet and the browser own, rewritten by an
  arbitrary function.
\<close>

definition restyle :: "('x \<Rightarrow> 'x) \<Rightarrow> 'x page \<Rightarrow> 'x page" where
  "restyle f s = s\<lparr>elements := map (\<lambda>e. e\<lparr>other := f (other e)\<rparr>) (elements s)\<rparr>"

subsection \<open>What the stylesheet shows\<close>

text \<open>
  Under the page's stylesheet \<open>d-none\<close> hides the play button and \<open>pause-hidden\<close> hides
  the pause button. The visibility state of the two controls is read off their classes:
  (play button visible, pause button visible).
\<close>

definition visibility :: "nat \<Rightarrow> nat \<Rightarrow> 'x page \<Rightarrow> bool \<times> bool" where
  "visibility p q s =
     (''d-none'' \<notin> set (classList (elements s ! p)),
      ''pause-hidden'' \<notin> set (classList (elements s ! q)))"

subsection \<open>Example pages\<close>

text \<open>
  A page with the three elements in their initial classes, before the script has run.
  The rest of each element is the \<open>display\<close> value computed for it as the page stands.
\<close>

definition hero_page :: "string page" where
  "hero_page =
     \<lparr>elements =
        [\<lparr>elem_id = ''heroVideo'', classList = [''hero-video''], media = True,
          calls = [], parent = None, other = ''block''\<rparr>,
         \<lparr>elem_id = ''overlayPlayHeroVideo'', classList = [''btn''], media = False,
          calls = [], parent = None, other = ''block''\<rparr>,
         \<lparr>elem_id = ''pauseHeroVideo'', classList = [''btn'', ''pause-hidden''],
          media = False, calls = [], parent = None,
          other = ''none''\<rparr>],
      listeners = [], reported = []\<rparr>"

text \<open>The same page without its pause button.\<close>

definition page_without_pause :: "string page" where
  "page_without_pause =
     \<lparr>elements =
        [\<lparr>elem_id = ''heroVideo'', classList = [''hero-video''], media = True,
          calls = [], parent = None, other = ''block''\<rparr>,
         \<lparr>elem_id = ''overlayPlayHeroVideo'', classList = [''btn''], media = False,
          calls = [], parent = None, other = ''block''\<rparr>],
      listeners = [], reported = []\<rparr>"

text \<open>
  The elements as they are while the video plays: the play button hidden, the pause
  button shown, one \<open>play()\<close> received.
\<close>

definition playing_page :: "string page" where
  "playing_page =
     \<lparr>elements =
        [\<lparr>elem_id = ''heroVideo'', classList = [''hero-video''], media = True,
          calls = [Play], parent = None, other = ''block''\<rparr>,
         \<lparr>elem_id = ''overlayPlayHeroVideo'', classList = [''btn'', ''d-none''],
          media = False, calls = [], parent = None,
          other = ''none''\<rparr>,
         \<lparr>elem_id = ''pauseHeroVideo'', classList = [''btn''], media = False,
          calls = [], parent = None, other = ''block''\<rparr>],
      listeners = [], reported = []\<rparr>"

text \<open>The playing page with an icon inside the pause button.\<close>

definition playing_page_with_icon :: "string page" where
  "playing_page_with_icon =
     \<lparr>elements =
        [\<lparr>elem_id = ''heroVideo'', classList = [''hero-video''], media = True,
          calls = [Play], parent = None, other = ''block''\<rparr>,
         \<lparr>elem_id = ''overlayPlayHeroVideo'', classList = [''btn'', ''d-none''],
          media = False, calls = [], parent = None, other = ''none''\<rparr>,
         \<lparr>elem_id = ''pauseHeroVideo'', classList = [''btn''], media = False,
          calls = [], parent = None, other = ''block''\<rparr>,
         \<lparr>elem_id = [], classList = [''icon''], media = False,
          calls = [], parent = Some 2, other = ''inline''\<rparr>],
      listeners = [], reported = []\<rparr>"

text \<open>
  The initial page with the pause button placed inside the play control.
\<close>

definition nested_page :: "string page" where
  "nested_page =
     \<lparr>elements =
        [\<lparr>elem_id = ''heroVideo'', classList = [''hero-video''], media = True,
          calls = [], parent = None, other = ''block''\<rparr>,
         \<lparr>elem_id = ''overlayPlayHeroVideo'', classList = [''btn''], media = False,
          calls = [], parent = None, other = ''block''\<rparr>,
         \<lparr>elem_id = ''pauseHeroVideo'', classList = [''btn'', ''pause-hidden''],
          media = False, calls = [], parent = Some 1, other = ''none''\<rparr>],
      listeners = [], reported = []\<rparr>"

section \<open>Lemmas on lookup, registration and dispatch\<close>

lemma getElementById_Some:
  "getElementById es i = Some r \<Longrightarrow> r < length es \<and> elem_id (es ! r) = i"
  by (induction es arbitrary: r) (auto split: if_splits)

lemma DOMContentLoaded_present:
  assumes "getElementById (elements s) ''heroVideo'' = Some v"
    and "getElementById (elements s) ''overlayPlayHeroVideo'' = Some p"
    and "getElementById (elements s) ''pauseHeroVideo'' = Some q"
  shows "DOMContentLoaded s =
     s\<lparr>listeners := listeners s @ [(p, ''click'', PlayButtonClick v p q),
                    (q, ''click'', PauseButtonClick v p q),
                    (v, ''ended'', VideoEnded v p q)]\<rparr>"
  using assms by (simp add: DOMContentLoaded_def addEventListener_def)

lemma DOMContentLoaded_absent:
  assumes "getElementById (elements s) ''heroVideo'' = None \<or>
           getElementById (elements s) ''overlayPlayHeroVideo'' = None \<or>
           getElementById (elements s) ''pauseHeroVideo'' = None"
  shows "DOMContentLoaded s = s"
  using assms by (auto simp add: DOMContentLoaded_def split: option.splits)

lemma DOMContentLoaded_bound:
  assumes "getElementById (elements s) ''heroVideo'' = Some v"
    and "getElementById (elements s) ''overlayPlayHeroVideo'' = Some p"
    and "getElementById (elements s) ''pauseHeroVideo'' = Some q"
    and "listeners s = []"
  shows "bound v p q (DOMContentLoaded s)"
proof -
  from assms(1) have v: "v < length (elements s)" "elem_id (elements s ! v) = ''heroVideo''"
    by (simp_all add: getElementById_Some)
  from assms(2) have p: "p < length (elements s)"
    "elem_id (elements s ! p) = ''overlayPlayHeroVideo''"
    by (simp_all add: getElementById_Some)
  from assms(3) have q: "q < length (elements s)" "elem_id (elements s ! q) = ''pauseHeroVideo''"
    by (simp_all add: getElementById_Some)
  from v p have "v \<noteq> p" by auto
  moreover from v q have "v \<noteq> q" by auto
  moreover from p q have "p \<noteq> q" by auto
  ultimately show ?thesis
    using v p q assms(4) by (simp add: DOMContentLoaded_present [OF assms(1-3)] bound_def)
qed

lemma DOMContentLoaded_elements: "elements (DOMContentLoaded s) = elements s"
  by (simp add: DOMContentLoaded_def addEventListener_def split: option.splits)

lemma DOMContentLoaded_reported: "reported (DOMContentLoaded s) = reported s"
  by (simp add: DOMContentLoaded_def addEventListener_def split: option.splits)

lemma dispatchEvent_bound:
  assumes "bound v p q s"
  shows "dispatchEvent t ty s =
     (if t = p \<and> ty = ''click'' then run_listener (PlayButtonClick v p q) s
      else if t = q \<and> ty = ''click'' then run_listener (PauseButtonClick v p q) s
      else if t = v \<and> ty = ''ended'' then run_listener (VideoEnded v p q) s
      else s)"
  using assms by (auto simp add: dispatchEvent_def bound_def)

lemma play_click_media:
  assumes "bound v p q s" and "media (elements s ! v)"
  shows "dispatchEvent p ''click'' s =
     s\<lparr>elements := (elements s)
         [v := (elements s ! v)\<lparr>calls := calls (elements s ! v) @ [Play]\<rparr>,
          p := (elements s ! p)
                 \<lparr>classList := token_add ''d-none'' (classList (elements s ! p))\<rparr>,
          q := (elements s ! q)
                 \<lparr>classList := token_remove ''pause-hidden'' (classList (elements s ! q))\<rparr>]\<rparr>"
  using assms
  by (simp add: dispatchEvent_bound [OF assms(1)] run_listener_def playButton_click_def
      call_method_def classList_add_def classList_remove_def bound_def)

lemma play_click_not_media:
  assumes "bound v p q s" and "\<not> media (elements s ! v)"
  shows "dispatchEvent p ''click'' s = s\<lparr>reported := reported s @ [TypeError]\<rparr>"
  using assms
  by (simp add: dispatchEvent_bound [OF assms(1)] run_listener_def playButton_click_def
      call_method_def bound_def)

lemma pause_click_media:
  assumes "bound v p q s" and "media (elements s ! v)"
  shows "dispatchEvent q ''click'' s =
     s\<lparr>elements := (elements s)
         [v := (elements s ! v)\<lparr>calls := calls (elements s ! v) @ [Pause]\<rparr>]\<rparr>"
  using assms
  by (simp add: dispatchEvent_bound [OF assms(1)] run_listener_def pauseButton_click_def
      call_method_def bound_def)

lemma pause_click_not_media:
  assumes "bound v p q s" and "\<not> media (elements s ! v)"
  shows "dispatchEvent q ''click'' s = s\<lparr>reported := reported s @ [TypeError]\<rparr>"
  using assms
  by (simp add: dispatchEvent_bound [OF assms(1)] run_listener_def pauseButton_click_def
      call_method_def bound_def)

lemma ended_effect:
  assumes "bound v p q s"
  shows "dispatchEvent v ''ended'' s =
     s\<lparr>elements := (elements s)
         [q := (elements s ! q)
                 \<lparr>classList := token_add ''pause-hidden'' (classList (elements s ! q))\<rparr>,
          p := (elements s ! p)
                 \<lparr>classList := token_remove ''d-none'' (classList (elements s ! p))\<rparr>]\<rparr>"
  using assms
  by (simp add: dispatchEvent_bound [OF assms(1)] run_listener_def video_ended_def
      classList_add_def classList_remove_def bound_def)

lemma other_event:
  assumes "bound v p q s"
    and "\<not> (t = p \<and> ty = ''click'')" and "\<not> (t = q \<and> ty = ''click'')"
    and "\<not> (t = v \<and> ty = ''ended'')"
  shows "dispatchEvent t ty s = s"
  using assms(2-4) by (auto simp add: dispatchEvent_bound [OF assms(1)])

text \<open>Every dispatch on a bound page is one of six cases.\<close>

lemma dispatchEvent_cases:
  assumes b: "bound v p q s"
  obtains
    (play) "t = p" "ty = ''click''" "media (elements s ! v)"
  | (play_throws) "t = p" "ty = ''click''" "\<not> media (elements s ! v)"
  | (pause) "t = q" "ty = ''click''" "media (elements s ! v)"
  | (pause_throws) "t = q" "ty = ''click''" "\<not> media (elements s ! v)"
  | (ended) "t = v" "ty = ''ended''"
  | (other) "\<not> (t = p \<and> ty = ''click'')" "\<not> (t = q \<and> ty = ''click'')"
      "\<not> (t = v \<and> ty = ''ended'')" "dispatchEvent t ty s = s"
  using other_event [OF b, of t ty] by blast

lemma bound_dispatchEvent:
  assumes b: "bound v p q s"
  shows "bound v p q (dispatchEvent t ty s)"
  using b
proof (cases rule: dispatchEvent_cases [where t = t and ty = ty])
  case play
  then show ?thesis using b by (simp add: play_click_media [OF b] bound_def)
next
  case play_throws
  then show ?thesis using b by (simp add: play_click_not_media [OF b] bound_def)
next
  case pause
  then show ?thesis using b by (simp add: pause_click_media [OF b] bound_def)
next
  case pause_throws
  then show ?thesis using b by (simp add: pause_click_not_media [OF b] bound_def)
next
  case ended
  then show ?thesis using b by (simp add: ended_effect [OF b] bound_def)
next
  case other
  then show ?thesis using b by simp
qed

subsection \<open>Class tokens\<close>

lemma token_add_idem: "token_add c (token_add c ts) = token_add c ts"
  by (simp add: token_add_def)

lemma token_remove_idem: "token_remove c (token_remove c ts) = token_remove c ts"
  by (simp add: token_remove_def)

lemma token_add_mem: "c \<in> set (token_add c ts)"
  by (simp add: token_add_def)

lemma token_remove_not_mem: "c \<notin> set (token_remove c ts)"
  by (simp add: token_remove_def)

lemma map_update_same: "(map f xs)[i := f (xs ! i)] = map f xs"
  by (metis list_update_id map_update)

subsection \<open>Visibility\<close>

lemma visibility_dispatchEvent:
  assumes b: "bound v p q s" and inv: "visibility p q s \<noteq> (True, True)"
  shows "visibility p q (dispatchEvent t ty s) \<noteq> (True, True)"
proof -
  from b have neq: "v \<noteq> p" "v \<noteq> q" "p \<noteq> q"
    and len: "v < length (elements s)" "p < length (elements s)" "q < length (elements s)"
    by (simp_all add: bound_def)
  from b show ?thesis
  proof (cases rule: dispatchEvent_cases [where t = t and ty = ty])
    case play
    then show ?thesis
      using neq len by (simp add: play_click_media [OF b] visibility_def token_add_mem)
  next
    case play_throws
    then show ?thesis
      using inv by (simp add: play_click_not_media [OF b] visibility_def)
  next
    case pause
    then show ?thesis
      using inv neq len by (simp add: pause_click_media [OF b] visibility_def)
  next
    case pause_throws
    then show ?thesis
      using inv by (simp add: pause_click_not_media [OF b] visibility_def)
  next
    case ended
    then show ?thesis
      using neq len by (simp add: ended_effect [OF b] visibility_def token_add_mem)
  next
    case other
    then show ?thesis using inv by simp
  qed
qed

lemma visibility_dispatchAll:
  "bound v p q s \<Longrightarrow> visibility p q s \<noteq> (True, True) \<Longrightarrow>
   visibility p q (dispatchAll evs s) \<noteq> (True, True)"
proof (induction evs arbitrary: s)
  case Nil
  then show ?case by simp
next
  case (Cons ev evs)
  obtain t ty where ev: "ev = (t, ty)" by (cases ev)
  have "bound v p q (dispatchEvent t ty s)"
    using Cons.prems(1) by (rule bound_dispatchEvent)
  moreover have "visibility p q (dispatchEvent t ty s) \<noteq> (True, True)"
    using Cons.prems by (rule visibility_dispatchEvent)
  ultimately show ?case
    using Cons.IH [of "dispatchEvent t ty s"] by (simp add: ev)
qed


subsection \<open>The rest of an element\<close>

lemma other_calls_swap: "e\<lparr>other := x, calls := y\<rparr> = e\<lparr>calls := y, other := x\<rparr>"
  by (cases e) simp

lemma other_classList_swap:
  "e\<lparr>other := x, classList := y\<rparr> = e\<lparr>classList := y, other := x\<rparr>"
  by (cases e) simp

lemma getElementById_restyle:
  "getElementById (map (\<lambda>e. e\<lparr>other := f (other e)\<rparr>) es) i = getElementById es i"
  by (induction es) simp_all

lemma DOMContentLoaded_restyle:
  "DOMContentLoaded (restyle f s) = restyle f (DOMContentLoaded s)"
  by (simp add: DOMContentLoaded_def restyle_def addEventListener_def getElementById_restyle
      split: option.splits)

lemma bound_restyle: "bound v p q s \<Longrightarrow> bound v p q (restyle f s)"
  by (simp add: bound_def restyle_def)

lemma dispatchEvent_restyle:
  assumes b: "bound v p q s"
  shows "dispatchEvent t ty (restyle f s) = restyle f (dispatchEvent t ty s)"
proof -
  have b': "bound v p q (restyle f s)"
    using b by (rule bound_restyle)
  from b have len: "v < length (elements s)" "p < length (elements s)" "q < length (elements s)"
    by (simp_all add: bound_def)
  then have m: "media (elements (restyle f s) ! v) = media (elements s ! v)"
    by (simp add: restyle_def)
  from b show ?thesis
  proof (cases rule: dispatchEvent_cases [where t = t and ty = ty])
    case play
    then show ?thesis
      using len m
      by (simp add: play_click_media [OF b] play_click_media [OF b'])
         (simp add: restyle_def map_update other_calls_swap other_classList_swap)
  next
    case play_throws
    then show ?thesis
      using len m
      by (simp add: play_click_not_media [OF b] play_click_not_media [OF b'])
         (simp add: restyle_def)
  next
    case pause
    then show ?thesis
      using len m
      by (simp add: pause_click_media [OF b] pause_click_media [OF b'])
         (simp add: restyle_def map_update other_calls_swap other_classList_swap)
  next
    case pause_throws
    then show ?thesis
      using len m
      by (simp add: pause_click_not_media [OF b] pause_click_not_media [OF b'])
         (simp add: restyle_def)
  next
    case ended
    then show ?thesis
      using len
      by (simp add: ended_effect [OF b] ended_effect [OF b'])
         (simp add: restyle_def map_update other_calls_swap other_classList_swap)
  next
    case other
    then show ?thesis by (simp add: other_event [OF b'])
  qed
qed

subsection \<open>Event paths and bubbling clicks\<close>

lemma event_path_le: "j \<in> set (event_path els i) \<Longrightarrow> j \<le> i"
proof (induction els i rule: event_path.induct)
  case (1 els i)
  show ?case
  proof (cases "i < length els")
    case False
    with "1.prems" show ?thesis by (simp add: event_path.simps [of els i])
  next
    case True
    show ?thesis
    proof (cases "parent (els ! i)")
      case None
      with True "1.prems" show ?thesis by (simp add: event_path.simps [of els i])
    next
      case (Some k)
      show ?thesis
      proof (cases "k < i")
        case False
        with True Some "1.prems" show ?thesis by (simp add: event_path.simps [of els i])
      next
        case less: True
        from True Some less "1.prems" have "j = i \<or> j \<in> set (event_path els k)"
          by (simp add: event_path.simps [of els i])
        then show ?thesis
          using "1.IH" [OF True Some less] less by auto
      qed
    qed
  qed
qed

lemma distinct_event_path: "distinct (event_path els i)"
proof (induction els i rule: event_path.induct)
  case (1 els i)
  show ?case
  proof (cases "i < length els")
    case False
    then show ?thesis by (simp add: event_path.simps [of els i])
  next
    case True
    show ?thesis
    proof (cases "parent (els ! i)")
      case None
      with True show ?thesis by (simp add: event_path.simps [of els i])
    next
      case (Some k)
      show ?thesis
      proof (cases "k < i")
        case False
        with True Some show ?thesis by (simp add: event_path.simps [of els i])
      next
        case less: True
        have "i \<notin> set (event_path els k)"
          using event_path_le [of i els k] less by auto
        with True Some less "1.IH" [OF True Some less] show ?thesis
          by (simp add: event_path.simps [of els i])
      qed
    qed
  qed
qed

lemma event_path_self: "i < length els \<Longrightarrow> i \<in> set (event_path els i)"
  by (simp add: event_path.simps [of els i] split: option.splits)


text \<open>Clicks along a path that meets neither button change nothing.\<close>

lemma clicks_elsewhere:
  "bound v p q s \<Longrightarrow> p \<notin> set xs \<Longrightarrow> q \<notin> set xs \<Longrightarrow>
   fold (\<lambda>i. dispatchEvent i ''click'') xs s = s"
proof (induction xs)
  case Nil
  then show ?case by simp
next
  case (Cons x xs)
  from Cons.prems have "dispatchEvent x ''click'' s = s"
    by (intro other_event [of v p q]) auto
  with Cons show ?case by simp
qed

text \<open>Clicks along a path that meets the pause button and not the play button.\<close>

lemma clicks_pause_only:
  "bound v p q s \<Longrightarrow> distinct xs \<Longrightarrow> p \<notin> set xs \<Longrightarrow> q \<in> set xs \<Longrightarrow>
   fold (\<lambda>i. dispatchEvent i ''click'') xs s = dispatchEvent q ''click'' s"
proof (induction xs)
  case Nil
  then show ?case by simp
next
  case (Cons x xs)
  show ?case
  proof (cases "x = q")
    case True
    have "bound v p q (dispatchEvent q ''click'' s)"
      using Cons.prems(1) by (rule bound_dispatchEvent)
    moreover from Cons.prems True have "p \<notin> set xs" "q \<notin> set xs" by auto
    ultimately have "fold (\<lambda>i. dispatchEvent i ''click'') xs (dispatchEvent q ''click'' s) =
        dispatchEvent q ''click'' s"
      by (rule clicks_elsewhere)
    with True show ?thesis by simp
  next
    case False
    with Cons.prems have "dispatchEvent x ''click'' s = s"
      by (intro other_event [of v p q]) auto
    moreover from Cons.prems False have "distinct xs" "p \<notin> set xs" "q \<in> set xs" by auto
    ultimately show ?thesis using Cons.IH Cons.prems(1) by simp
  qed
qed


section \<open>Initialisation\<close>

text \<open>
  C4. Initialisation guard: when one or more of the three elements is missing (any of
  the seven non-empty subsets), the DOMContentLoaded listener returns with the page
  exactly as it found it, so no listener is attached to an element that is present; when
  all three are present it attaches exactly the three listeners (click on the play
  button, click on the pause button, ended on the video) and changes nothing else.
  Binding is all or nothing.
\<close>

theorem init_guard_all_or_nothing:
  "(getElementById (elements s) ''heroVideo'' = None \<or>
    getElementById (elements s) ''overlayPlayHeroVideo'' = None \<or>
    getElementById (elements s) ''pauseHeroVideo'' = None
      \<longrightarrow> DOMContentLoaded s = s) \<and>
   (\<forall>v p q.
      getElementById (elements s) ''heroVideo'' = Some v \<and>
      getElementById (elements s) ''overlayPlayHeroVideo'' = Some p \<and>
      getElementById (elements s) ''pauseHeroVideo'' = Some q
      \<longrightarrow> DOMContentLoaded s =
            s\<lparr>listeners := listeners s @
                 [(p, ''click'', PlayButtonClick v p q),
                  (q, ''click'', PauseButtonClick v p q),
                  (v, ''ended'', VideoEnded v p q)]\<rparr>)"
proof (intro conjI impI allI)
  assume "getElementById (elements s) ''heroVideo'' = None \<or>
    getElementById (elements s) ''overlayPlayHeroVideo'' = None \<or>
    getElementById (elements s) ''pauseHeroVideo'' = None"
  then show "DOMContentLoaded s = s" by (rule DOMContentLoaded_absent)
next
  fix v p q
  assume "getElementById (elements s) ''heroVideo'' = Some v \<and>
      getElementById (elements s) ''overlayPlayHeroVideo'' = Some p \<and>
      getElementById (elements s) ''pauseHeroVideo'' = Some q"
  then show "DOMContentLoaded s =
            s\<lparr>listeners := listeners s @
                 [(p, ''click'', PlayButtonClick v p q),
                  (q, ''click'', PauseButtonClick v p q),
                  (v, ''ended'', VideoEnded v p q)]\<rparr>"
    by (simp add: DOMContentLoaded_present)
qed

theorem init_guard_all_or_nothing_witness:
  "getElementById (elements page_without_pause) ''pauseHeroVideo'' = None \<and>
   DOMContentLoaded page_without_pause = page_without_pause \<and>
   listeners (DOMContentLoaded page_without_pause) = [] \<and>
   getElementById (elements hero_page) ''heroVideo'' = Some 0 \<and>
   getElementById (elements hero_page) ''overlayPlayHeroVideo'' = Some 1 \<and>
   getElementById (elements hero_page) ''pauseHeroVideo'' = Some 2 \<and>
   listeners (DOMContentLoaded hero_page) =
     [(1, ''click'', PlayButtonClick 0 1 2),
      (2, ''click'', PauseButtonClick 0 1 2),
      (0, ''ended'', VideoEnded 0 1 2)]"
proof -
  have absent: "getElementById (elements page_without_pause) ''pauseHeroVideo'' = None"
    by (simp add: page_without_pause_def)
  have present: "getElementById (elements hero_page) ''heroVideo'' = Some 0"
    "getElementById (elements hero_page) ''overlayPlayHeroVideo'' = Some 1"
    "getElementById (elements hero_page) ''pauseHeroVideo'' = Some 2"
    by (simp_all add: hero_page_def)
  from absent init_guard_all_or_nothing [of page_without_pause]
  have unchanged: "DOMContentLoaded page_without_pause = page_without_pause"
    by blast
  from present init_guard_all_or_nothing [of hero_page]
  have "DOMContentLoaded hero_page =
     hero_page\<lparr>listeners := listeners hero_page @
       [(1, ''click'', PlayButtonClick 0 1 2),
        (2, ''click'', PauseButtonClick 0 1 2),
        (0, ''ended'', VideoEnded 0 1 2)]\<rparr>"
    by blast
  then have "listeners (DOMContentLoaded hero_page) =
     [(1, ''click'', PlayButtonClick 0 1 2),
      (2, ''click'', PauseButtonClick 0 1 2),
      (0, ''ended'', VideoEnded 0 1 2)]"
    by (simp add: hero_page_def)
  moreover have "listeners page_without_pause = []"
    by (simp add: page_without_pause_def)
  ultimately show ?thesis using absent present unchanged by simp
qed

section \<open>The three reactions\<close>

text \<open>
  The theorems below are about a page on which the DOMContentLoaded listener has run
  with all three elements present. Before it runs the page has none of the script's
  listeners (\<open>listeners s0 = []\<close>); the classes, the recorded calls and the rest of
  every element are arbitrary, so each statement covers every prior class state.
  \<open>dispatchEvent\<close> delivers an event at its target alone; \<open>dispatchBubbling\<close>
  delivers it along the whole event path, as the browser delivers a click.
  Where a statement speaks of the calls the video receives, the element found under
  \<open>heroVideo\<close> is taken to be a media element, as the page is required to provide;
  on any other element \<open>play\<close> and \<open>pause\<close> are undefined and the click listener
  throws before it touches a class.
\<close>

text \<open>
  C1. Play transition: with the video (a media element), the play button and the pause
  button present, a click on the play button calls \<open>play()\<close> on the video exactly once
  (one \<open>Play\<close> is appended to the calls the video has received, and nothing is reported),
  after which the play button carries \<open>d-none\<close> and the pause button does not carry
  \<open>pause-hidden\<close>. This holds from every prior class state, in particular from the
  initial one (play button without \<open>d-none\<close>, pause button with \<open>pause-hidden\<close>).
\<close>

theorem play_click_starts_playback_and_swaps_buttons:
  assumes "getElementById (elements s0) ''heroVideo'' = Some v"
    and "getElementById (elements s0) ''overlayPlayHeroVideo'' = Some p"
    and "getElementById (elements s0) ''pauseHeroVideo'' = Some q"
    and "listeners s0 = []"
    and "media (elements s0 ! v)"
  shows "calls (elements (dispatchEvent p ''click'' (DOMContentLoaded s0)) ! v) =
           calls (elements s0 ! v) @ [Play] \<and>
         reported (dispatchEvent p ''click'' (DOMContentLoaded s0)) = reported s0 \<and>
         ''d-none'' \<in> set (classList (elements (dispatchEvent p ''click'' (DOMContentLoaded s0)) ! p)) \<and>
         ''pause-hidden'' \<notin>
           set (classList (elements (dispatchEvent p ''click'' (DOMContentLoaded s0)) ! q))"
proof -
  let ?s = "DOMContentLoaded s0"
  have b: "bound v p q ?s"
    using assms(1-4) by (rule DOMContentLoaded_bound)
  have m: "media (elements ?s ! v)"
    using assms(5) by (simp add: DOMContentLoaded_elements)
  from b have neq: "v \<noteq> p" "v \<noteq> q" "p \<noteq> q"
    and len: "v < length (elements s0)" "p < length (elements s0)" "q < length (elements s0)"
    by (simp_all add: bound_def DOMContentLoaded_elements)
  show ?thesis
    using neq len
    by (simp add: play_click_media [OF b m] DOMContentLoaded_elements
        DOMContentLoaded_reported token_add_def token_remove_def)
qed

theorem play_click_starts_playback_and_swaps_buttons_witness:
  "getElementById (elements hero_page) ''heroVideo'' = Some 0 \<and>
   getElementById (elements hero_page) ''overlayPlayHeroVideo'' = Some 1 \<and>
   getElementById (elements hero_page) ''pauseHeroVideo'' = Some 2 \<and>
   listeners hero_page = [] \<and>
   media (elements hero_page ! 0) \<and>
   ''d-none'' \<notin> set (classList (elements hero_page ! 1)) \<and>
   ''pause-hidden'' \<in> set (classList (elements hero_page ! 2)) \<and>
   calls (elements (dispatchEvent 1 ''click'' (DOMContentLoaded hero_page)) ! 0) = [Play] \<and>
   reported (dispatchEvent 1 ''click'' (DOMContentLoaded hero_page)) = [] \<and>
   ''d-none'' \<in>
     set (classList (elements (dispatchEvent 1 ''click'' (DOMContentLoaded hero_page)) ! 1)) \<and>
   ''pause-hidden'' \<notin>
     set (classList (elements (dispatchEvent 1 ''click'' (DOMContentLoaded hero_page)) ! 2))"
proof -
  have h: "getElementById (elements hero_page) ''heroVideo'' = Some 0"
    "getElementById (elements hero_page) ''overlayPlayHeroVideo'' = Some 1"
    "getElementById (elements hero_page) ''pauseHeroVideo'' = Some 2"
    "listeners hero_page = []"
    "media (elements hero_page ! 0)"
    by (simp_all add: hero_page_def)
  have i: "''d-none'' \<notin> set (classList (elements hero_page ! 1))"
    "''pause-hidden'' \<in> set (classList (elements hero_page ! 2))"
    "calls (elements hero_page ! 0) = []" "reported hero_page = []"
    by (simp_all add: hero_page_def)
  from play_click_starts_playback_and_swaps_buttons [OF h] show ?thesis
    using h i by simp
qed

text \<open>
  C3. Pause invocation, for a click that reaches the pause button and not the play
  control: when the pause button is on the path of the click (the click is on it or
  inside it) and the play control is not (the pause button does not sit inside the play
  control), the click calls \<open>pause()\<close> on the video exactly once (one \<open>Pause\<close> is
  appended to the calls the video has received, and nothing is reported) and leaves the
  class list of the play button, of the pause button and of every other element exactly
  as it was: no class is added or removed, and a hidden play button stays hidden.
\<close>

theorem pause_click_stops_playback_and_keeps_classes:
  assumes "getElementById (elements s0) ''heroVideo'' = Some v"
    and "getElementById (elements s0) ''overlayPlayHeroVideo'' = Some p"
    and "getElementById (elements s0) ''pauseHeroVideo'' = Some q"
    and "listeners s0 = []"
    and "media (elements s0 ! v)"
    and "q \<in> set (event_path (elements s0) t)"
    and "p \<notin> set (event_path (elements s0) t)"
  shows "calls (elements (dispatchBubbling t ''click'' (DOMContentLoaded s0)) ! v) =
           calls (elements s0 ! v) @ [Pause] \<and>
         reported (dispatchBubbling t ''click'' (DOMContentLoaded s0)) = reported s0 \<and>
         classList (elements (dispatchBubbling t ''click'' (DOMContentLoaded s0)) ! p) =
           classList (elements s0 ! p) \<and>
         classList (elements (dispatchBubbling t ''click'' (DOMContentLoaded s0)) ! q) =
           classList (elements s0 ! q) \<and>
         map classList (elements (dispatchBubbling t ''click'' (DOMContentLoaded s0))) =
           map classList (elements s0)"
proof -
  let ?s = "DOMContentLoaded s0"
  have b: "bound v p q ?s"
    using assms(1-4) by (rule DOMContentLoaded_bound)
  have m: "media (elements ?s ! v)"
    using assms(5) by (simp add: DOMContentLoaded_elements)
  from b have neq: "v \<noteq> p" "v \<noteq> q"
    and len: "v < length (elements s0)"
    by (simp_all add: bound_def DOMContentLoaded_elements)
  have only_pause: "dispatchBubbling t ''click'' ?s = dispatchEvent q ''click'' ?s"
    unfolding dispatchBubbling_def DOMContentLoaded_elements
    using b distinct_event_path assms(7) assms(6) by (rule clicks_pause_only)
  have "map classList
          ((elements s0)[v := (elements s0 ! v)\<lparr>calls := calls (elements s0 ! v) @ [Pause]\<rparr>])
        = map classList (elements s0)"
    by (simp add: map_update map_update_same)
  then show ?thesis
    using neq len
    by (simp add: only_pause pause_click_media [OF b m] DOMContentLoaded_elements
        DOMContentLoaded_reported)
qed

theorem pause_click_stops_playback_and_keeps_classes_witness:
  "getElementById (elements playing_page_with_icon) ''heroVideo'' = Some 0 \<and>
   getElementById (elements playing_page_with_icon) ''overlayPlayHeroVideo'' = Some 1 \<and>
   getElementById (elements playing_page_with_icon) ''pauseHeroVideo'' = Some 2 \<and>
   listeners playing_page_with_icon = [] \<and>
   media (elements playing_page_with_icon ! 0) \<and>
   event_path (elements playing_page_with_icon) 3 = [3, 2] \<and>
   2 \<in> set (event_path (elements playing_page_with_icon) 3) \<and>
   1 \<notin> set (event_path (elements playing_page_with_icon) 3) \<and>
   calls (elements (dispatchBubbling 3 ''click'' (DOMContentLoaded playing_page_with_icon)) ! 0) =
     [Play, Pause] \<and>
   reported (dispatchBubbling 3 ''click'' (DOMContentLoaded playing_page_with_icon)) = [] \<and>
   classList
     (elements (dispatchBubbling 3 ''click'' (DOMContentLoaded playing_page_with_icon)) ! 1) =
     [''btn'', ''d-none''] \<and>
   classList
     (elements (dispatchBubbling 3 ''click'' (DOMContentLoaded playing_page_with_icon)) ! 2) =
     [''btn'']"
proof -
  have h: "getElementById (elements playing_page_with_icon) ''heroVideo'' = Some 0"
    "getElementById (elements playing_page_with_icon) ''overlayPlayHeroVideo'' = Some 1"
    "getElementById (elements playing_page_with_icon) ''pauseHeroVideo'' = Some 2"
    "listeners playing_page_with_icon = []"
    "media (elements playing_page_with_icon ! 0)"
    by (simp_all add: playing_page_with_icon_def)
  have path: "event_path (elements playing_page_with_icon) 3 = [3, 2]"
    by (simp add: playing_page_with_icon_def event_path.simps)
  then have on_path: "2 \<in> set (event_path (elements playing_page_with_icon) 3)"
    "1 \<notin> set (event_path (elements playing_page_with_icon) 3)"
    by simp_all
  have i: "calls (elements playing_page_with_icon ! 0) = [Play]"
    "reported playing_page_with_icon = []"
    "classList (elements playing_page_with_icon ! 1) = [''btn'', ''d-none'']"
    "classList (elements playing_page_with_icon ! 2) = [''btn'']"
    by (simp_all add: playing_page_with_icon_def)
  from pause_click_stops_playback_and_keeps_classes [OF h on_path] show ?thesis
    using h path on_path i by simp
qed

text \<open>
  C3 without that condition fails. On the page whose pause button sits inside the play
  control, the click on the pause button bubbles to the play control and runs its
  listener too: the video receives \<open>pause()\<close> and then \<open>play()\<close>, the play control
  gains \<open>d-none\<close> and the pause button loses \<open>pause-hidden\<close>.
\<close>

theorem pause_click_inside_play_control_counterexample:
  "getElementById (elements nested_page) ''heroVideo'' = Some 0 \<and>
   getElementById (elements nested_page) ''overlayPlayHeroVideo'' = Some 1 \<and>
   getElementById (elements nested_page) ''pauseHeroVideo'' = Some 2 \<and>
   listeners nested_page = [] \<and>
   media (elements nested_page ! 0) \<and>
   event_path (elements nested_page) 2 = [2, 1] \<and>
   calls (elements nested_page ! 0) = [] \<and>
   calls (elements (dispatchBubbling 2 ''click'' (DOMContentLoaded nested_page)) ! 0) =
     [Pause, Play] \<and>
   classList (elements nested_page ! 1) = [''btn''] \<and>
   classList (elements (dispatchBubbling 2 ''click'' (DOMContentLoaded nested_page)) ! 1) =
     [''btn'', ''d-none''] \<and>
   classList (elements nested_page ! 2) = [''btn'', ''pause-hidden''] \<and>
   classList (elements (dispatchBubbling 2 ''click'' (DOMContentLoaded nested_page)) ! 2) =
     [''btn''] \<and>
   \<not> (classList (elements (dispatchBubbling 2 ''click'' (DOMContentLoaded nested_page)) ! 1) =
        classList (elements nested_page ! 1) \<and>
      classList (elements (dispatchBubbling 2 ''click'' (DOMContentLoaded nested_page)) ! 2) =
        classList (elements nested_page ! 2))"
  by (simp add: nested_page_def dispatchBubbling_def event_path.simps
      DOMContentLoaded_def addEventListener_def dispatchEvent_def run_listener_def
      playButton_click_def pauseButton_click_def call_method_def classList_add_def
      classList_remove_def token_add_def token_remove_def)

text \<open>
  C2. End-of-playback reset: dispatching \<open>ended\<close> on the video leaves the pause button
  carrying \<open>pause-hidden\<close> and the play button not carrying \<open>d-none\<close>, whatever classes
  the two buttons had before (the page \<open>s0\<close> is arbitrary in its classes).
\<close>

theorem ended_resets_buttons:
  assumes "getElementById (elements s0) ''heroVideo'' = Some v"
    and "getElementById (elements s0) ''overlayPlayHeroVideo'' = Some p"
    and "getElementById (elements s0) ''pauseHeroVideo'' = Some q"
    and "listeners s0 = []"
  shows "''pause-hidden'' \<in>
           set (classList (elements (dispatchEvent v ''ended'' (DOMContentLoaded s0)) ! q)) \<and>
         ''d-none'' \<notin>
           set (classList (elements (dispatchEvent v ''ended'' (DOMContentLoaded s0)) ! p))"
proof -
  let ?s = "DOMContentLoaded s0"
  have b: "bound v p q ?s"
    using assms by (rule DOMContentLoaded_bound)
  then have "p \<noteq> q" "p < length (elements ?s)" "q < length (elements ?s)"
    by (simp_all add: bound_def)
  then show ?thesis
    by (simp add: ended_effect [OF b] token_add_mem token_remove_not_mem)
qed

theorem ended_resets_buttons_witness:
  "getElementById (elements playing_page) ''heroVideo'' = Some 0 \<and>
   getElementById (elements playing_page) ''overlayPlayHeroVideo'' = Some 1 \<and>
   getElementById (elements playing_page) ''pauseHeroVideo'' = Some 2 \<and>
   listeners playing_page = [] \<and>
   ''d-none'' \<in> set (classList (elements playing_page ! 1)) \<and>
   ''pause-hidden'' \<notin> set (classList (elements playing_page ! 2)) \<and>
   ''pause-hidden'' \<in>
     set (classList (elements (dispatchEvent 0 ''ended'' (DOMContentLoaded playing_page)) ! 2)) \<and>
   ''d-none'' \<notin>
     set (classList (elements (dispatchEvent 0 ''ended'' (DOMContentLoaded playing_page)) ! 1))"
proof -
  have h: "getElementById (elements playing_page) ''heroVideo'' = Some 0"
    "getElementById (elements playing_page) ''overlayPlayHeroVideo'' = Some 1"
    "getElementById (elements playing_page) ''pauseHeroVideo'' = Some 2"
    "listeners playing_page = []"
    by (simp_all add: playing_page_def)
  have i: "''d-none'' \<in> set (classList (elements playing_page ! 1))"
    "''pause-hidden'' \<notin> set (classList (elements playing_page ! 2))"
    by (simp_all add: playing_page_def)
  from ended_resets_buttons [OF h] show ?thesis
    using h i by simp
qed

text \<open>
  C6. Idempotence of the ended reaction: dispatching \<open>ended\<close> twice in succession
  leaves the page, and so the class lists of both buttons, exactly as dispatching it once
  does.
\<close>

theorem ended_idempotent:
  assumes "getElementById (elements s0) ''heroVideo'' = Some v"
    and "getElementById (elements s0) ''overlayPlayHeroVideo'' = Some p"
    and "getElementById (elements s0) ''pauseHeroVideo'' = Some q"
    and "listeners s0 = []"
  shows "dispatchEvent v ''ended'' (dispatchEvent v ''ended'' (DOMContentLoaded s0)) =
         dispatchEvent v ''ended'' (DOMContentLoaded s0)"
proof -
  let ?s = "DOMContentLoaded s0"
  have b: "bound v p q ?s"
    using assms by (rule DOMContentLoaded_bound)
  then have b': "bound v p q (dispatchEvent v ''ended'' ?s)"
    by (rule bound_dispatchEvent)
  from b have neq: "p \<noteq> q" and len: "p < length (elements ?s)" "q < length (elements ?s)"
    by (simp_all add: bound_def)
  define s1 where "s1 = dispatchEvent v ''ended'' ?s"
  have e1: "s1 = ?s\<lparr>elements := (elements ?s)
         [q := (elements ?s ! q)
                 \<lparr>classList := token_add ''pause-hidden'' (classList (elements ?s ! q))\<rparr>,
          p := (elements ?s ! p)
                 \<lparr>classList := token_remove ''d-none'' (classList (elements ?s ! p))\<rparr>]\<rparr>"
    unfolding s1_def by (rule ended_effect [OF b])
  have "dispatchEvent v ''ended'' s1 = s1"
    using neq len
    by (simp add: ended_effect [OF b' [folded s1_def]])
       (simp add: e1 token_add_idem token_remove_idem list_update_swap [of p q])
  then show ?thesis by (simp add: s1_def)
qed

theorem ended_idempotent_witness:
  "getElementById (elements playing_page) ''heroVideo'' = Some 0 \<and>
   getElementById (elements playing_page) ''overlayPlayHeroVideo'' = Some 1 \<and>
   getElementById (elements playing_page) ''pauseHeroVideo'' = Some 2 \<and>
   listeners playing_page = [] \<and>
   dispatchEvent 0 ''ended'' (dispatchEvent 0 ''ended'' (DOMContentLoaded playing_page)) =
     dispatchEvent 0 ''ended'' (DOMContentLoaded playing_page)"
proof -
  have h: "getElementById (elements playing_page) ''heroVideo'' = Some 0"
    "getElementById (elements playing_page) ''overlayPlayHeroVideo'' = Some 1"
    "getElementById (elements playing_page) ''pauseHeroVideo'' = Some 2"
    "listeners playing_page = []"
    by (simp_all add: playing_page_def)
  from ended_idempotent [OF h] show ?thesis
    using h by simp
qed

text \<open>
  C7. Round trip: from the start state (play button without \<open>d-none\<close>, pause button with
  \<open>pause-hidden\<close>) a click on the play button gives play hidden and pause visible, with
  \<open>play()\<close> called once on the video; dispatching \<open>ended\<close> then gives play visible and
  pause hidden again, with no further call on the video, and each button has the same
  set of classes as at the start.
\<close>

theorem play_then_ended_round_trip:
  assumes "getElementById (elements s0) ''heroVideo'' = Some v"
    and "getElementById (elements s0) ''overlayPlayHeroVideo'' = Some p"
    and "getElementById (elements s0) ''pauseHeroVideo'' = Some q"
    and "listeners s0 = []"
    and "media (elements s0 ! v)"
    and "''d-none'' \<notin> set (classList (elements s0 ! p))"
    and "''pause-hidden'' \<in> set (classList (elements s0 ! q))"
  shows "(let s1 = dispatchEvent p ''click'' (DOMContentLoaded s0);
              s2 = dispatchEvent v ''ended'' s1
          in ''d-none'' \<in> set (classList (elements s1 ! p)) \<and>
             ''pause-hidden'' \<notin> set (classList (elements s1 ! q)) \<and>
             calls (elements s1 ! v) = calls (elements s0 ! v) @ [Play] \<and>
             ''d-none'' \<notin> set (classList (elements s2 ! p)) \<and>
             ''pause-hidden'' \<in> set (classList (elements s2 ! q)) \<and>
             calls (elements s2 ! v) = calls (elements s0 ! v) @ [Play] \<and>
             set (classList (elements s2 ! p)) = set (classList (elements s0 ! p)) \<and>
             set (classList (elements s2 ! q)) = set (classList (elements s0 ! q)))"
proof -
  let ?s = "DOMContentLoaded s0"
  have b: "bound v p q ?s"
    using assms(1-4) by (rule DOMContentLoaded_bound)
  have m: "media (elements ?s ! v)"
    using assms(5) by (simp add: DOMContentLoaded_elements)
  have b': "bound v p q (dispatchEvent p ''click'' ?s)"
    using b by (rule bound_dispatchEvent)
  from b have neq: "v \<noteq> p" "v \<noteq> q" "p \<noteq> q"
    and len: "v < length (elements s0)" "p < length (elements s0)" "q < length (elements s0)"
    by (simp_all add: bound_def DOMContentLoaded_elements)
  define s1 where "s1 = dispatchEvent p ''click'' ?s"
  have e1: "s1 = ?s\<lparr>elements := (elements ?s)
         [v := (elements ?s ! v)\<lparr>calls := calls (elements ?s ! v) @ [Play]\<rparr>,
          p := (elements ?s ! p)
                 \<lparr>classList := token_add ''d-none'' (classList (elements ?s ! p))\<rparr>,
          q := (elements ?s ! q)
                 \<lparr>classList := token_remove ''pause-hidden'' (classList (elements ?s ! q))\<rparr>]\<rparr>"
    unfolding s1_def by (rule play_click_media [OF b m])
  have first: "''d-none'' \<in> set (classList (elements s1 ! p))"
    "''pause-hidden'' \<notin> set (classList (elements s1 ! q))"
    "calls (elements s1 ! v) = calls (elements s0 ! v) @ [Play]"
    "classList (elements s1 ! p) = token_add ''d-none'' (classList (elements s0 ! p))"
    "classList (elements s1 ! q) = token_remove ''pause-hidden'' (classList (elements s0 ! q))"
    "p < length (elements s1)" "q < length (elements s1)"
    using neq len
    by (simp_all add: e1 DOMContentLoaded_elements token_add_mem token_remove_not_mem)
  have second: "''d-none'' \<notin> set (classList (elements (dispatchEvent v ''ended'' s1) ! p))"
    "''pause-hidden'' \<in> set (classList (elements (dispatchEvent v ''ended'' s1) ! q))"
    "calls (elements (dispatchEvent v ''ended'' s1) ! v) = calls (elements s0 ! v) @ [Play]"
    "classList (elements (dispatchEvent v ''ended'' s1) ! p) =
       token_remove ''d-none'' (token_add ''d-none'' (classList (elements s0 ! p)))"
    "classList (elements (dispatchEvent v ''ended'' s1) ! q) =
       token_add ''pause-hidden'' (token_remove ''pause-hidden'' (classList (elements s0 ! q)))"
    using neq first
    by (simp_all add: ended_effect [OF b' [folded s1_def]] token_add_mem token_remove_not_mem)
  have "set (token_remove ''d-none'' (token_add ''d-none'' (classList (elements s0 ! p)))) =
        set (classList (elements s0 ! p))"
    using assms(6) by (auto simp add: token_add_def token_remove_def)
  moreover have
    "set (token_add ''pause-hidden'' (token_remove ''pause-hidden'' (classList (elements s0 ! q)))) =
        set (classList (elements s0 ! q))"
    using assms(7) by (auto simp add: token_add_def token_remove_def)
  ultimately show ?thesis
    using first(1-3) second by (simp add: Let_def s1_def [symmetric])
qed

theorem play_then_ended_round_trip_witness:
  "getElementById (elements hero_page) ''heroVideo'' = Some 0 \<and>
   getElementById (elements hero_page) ''overlayPlayHeroVideo'' = Some 1 \<and>
   getElementById (elements hero_page) ''pauseHeroVideo'' = Some 2 \<and>
   listeners hero_page = [] \<and>
   media (elements hero_page ! 0) \<and>
   ''d-none'' \<notin> set (classList (elements hero_page ! 1)) \<and>
   ''pause-hidden'' \<in> set (classList (elements hero_page ! 2)) \<and>
   (let s1 = dispatchEvent 1 ''click'' (DOMContentLoaded hero_page);
        s2 = dispatchEvent 0 ''ended'' s1
    in ''d-none'' \<in> set (classList (elements s1 ! 1)) \<and>
       ''pause-hidden'' \<notin> set (classList (elements s1 ! 2)) \<and>
       calls (elements s1 ! 0) = [Play] \<and>
       ''d-none'' \<notin> set (classList (elements s2 ! 1)) \<and>
       ''pause-hidden'' \<in> set (classList (elements s2 ! 2)) \<and>
       calls (elements s2 ! 0) = [Play] \<and>
       set (classList (elements s2 ! 1)) = {''btn''} \<and>
       set (classList (elements s2 ! 2)) = {''btn'', ''pause-hidden''})"
proof -
  have h: "getElementById (elements hero_page) ''heroVideo'' = Some 0"
    "getElementById (elements hero_page) ''overlayPlayHeroVideo'' = Some 1"
    "getElementById (elements hero_page) ''pauseHeroVideo'' = Some 2"
    "listeners hero_page = []"
    "media (elements hero_page ! 0)"
    "''d-none'' \<notin> set (classList (elements hero_page ! 1))"
    "''pause-hidden'' \<in> set (classList (elements hero_page ! 2))"
    by (simp_all add: hero_page_def)
  have i: "calls (elements hero_page ! 0) = []"
    "set (classList (elements hero_page ! 1)) = {''btn''}"
    "set (classList (elements hero_page ! 2)) = {''btn'', ''pause-hidden''}"
    by (simp_all add: hero_page_def)
  from play_then_ended_round_trip [OF h] show ?thesis
    using h i by (simp add: Let_def)
qed

text \<open>
  C10. Idempotence of the play reaction on classes: a second click on the play button
  leaves the class list of every element, in particular of both buttons, as the first
  click left it, while \<open>play()\<close> is called once per click: one \<open>Play\<close> after the first
  click, two after the second.
\<close>

theorem play_click_twice_same_classes:
  assumes "getElementById (elements s0) ''heroVideo'' = Some v"
    and "getElementById (elements s0) ''overlayPlayHeroVideo'' = Some p"
    and "getElementById (elements s0) ''pauseHeroVideo'' = Some q"
    and "listeners s0 = []"
    and "media (elements s0 ! v)"
  shows "(let s1 = dispatchEvent p ''click'' (DOMContentLoaded s0);
              s2 = dispatchEvent p ''click'' s1
          in map classList (elements s2) = map classList (elements s1) \<and>
             calls (elements s1 ! v) = calls (elements s0 ! v) @ [Play] \<and>
             calls (elements s2 ! v) = calls (elements s0 ! v) @ [Play, Play])"
proof -
  let ?s = "DOMContentLoaded s0"
  have b: "bound v p q ?s"
    using assms(1-4) by (rule DOMContentLoaded_bound)
  have m: "media (elements ?s ! v)"
    using assms(5) by (simp add: DOMContentLoaded_elements)
  from b have neq: "v \<noteq> p" "v \<noteq> q" "p \<noteq> q"
    and len: "v < length (elements s0)" "p < length (elements s0)" "q < length (elements s0)"
    by (simp_all add: bound_def DOMContentLoaded_elements)
  define s1 where "s1 = dispatchEvent p ''click'' ?s"
  have b1: "bound v p q s1"
    unfolding s1_def using b by (rule bound_dispatchEvent)
  have e1: "s1 = ?s\<lparr>elements := (elements ?s)
         [v := (elements ?s ! v)\<lparr>calls := calls (elements ?s ! v) @ [Play]\<rparr>,
          p := (elements ?s ! p)
                 \<lparr>classList := token_add ''d-none'' (classList (elements ?s ! p))\<rparr>,
          q := (elements ?s ! q)
                 \<lparr>classList := token_remove ''pause-hidden'' (classList (elements ?s ! q))\<rparr>]\<rparr>"
    unfolding s1_def by (rule play_click_media [OF b m])
  have first: "media (elements s1 ! v)"
    "calls (elements s1 ! v) = calls (elements s0 ! v) @ [Play]"
    "classList (elements s1 ! p) = token_add ''d-none'' (classList (elements s0 ! p))"
    "classList (elements s1 ! q) = token_remove ''pause-hidden'' (classList (elements s0 ! q))"
    "v < length (elements s1)" "p < length (elements s1)" "q < length (elements s1)"
    using neq len assms(5)
    by (simp_all add: e1 DOMContentLoaded_elements)
  have e2: "dispatchEvent p ''click'' s1 = s1\<lparr>elements := (elements s1)
         [v := (elements s1 ! v)\<lparr>calls := calls (elements s1 ! v) @ [Play]\<rparr>,
          p := (elements s1 ! p)
                 \<lparr>classList := token_add ''d-none'' (classList (elements s1 ! p))\<rparr>,
          q := (elements s1 ! q)
                 \<lparr>classList := token_remove ''pause-hidden'' (classList (elements s1 ! q))\<rparr>]\<rparr>"
    by (rule play_click_media [OF b1 first(1)])
  have "map classList (elements (dispatchEvent p ''click'' s1)) = map classList (elements s1)"
    by (simp add: e2 map_update first(3,4) token_add_idem token_remove_idem)
       (simp add: first(3,4) [symmetric] map_update_same)
  moreover have "calls (elements (dispatchEvent p ''click'' s1) ! v) =
      calls (elements s0 ! v) @ [Play, Play]"
    using neq first by (simp add: e2)
  ultimately show ?thesis
    using first(2) by (simp add: Let_def s1_def [symmetric])
qed

theorem play_click_twice_same_classes_witness:
  "getElementById (elements hero_page) ''heroVideo'' = Some 0 \<and>
   getElementById (elements hero_page) ''overlayPlayHeroVideo'' = Some 1 \<and>
   getElementById (elements hero_page) ''pauseHeroVideo'' = Some 2 \<and>
   listeners hero_page = [] \<and>
   media (elements hero_page ! 0) \<and>
   (let s1 = dispatchEvent 1 ''click'' (DOMContentLoaded hero_page);
        s2 = dispatchEvent 1 ''click'' s1
    in map classList (elements s2) = map classList (elements s1) \<and>
       calls (elements s1 ! 0) = [Play] \<and>
       calls (elements s2 ! 0) = [Play, Play])"
proof -
  have h: "getElementById (elements hero_page) ''heroVideo'' = Some 0"
    "getElementById (elements hero_page) ''overlayPlayHeroVideo'' = Some 1"
    "getElementById (elements hero_page) ''pauseHeroVideo'' = Some 2"
    "listeners hero_page = []"
    "media (elements hero_page ! 0)"
    by (simp_all add: hero_page_def)
  have i: "calls (elements hero_page ! 0) = []"
    by (simp add: hero_page_def)
  from play_click_twice_same_classes [OF h] show ?thesis
    using h i by (simp add: Let_def)
qed

section \<open>Properties of every reaction\<close>

text \<open>
  C5. At most one of the two controls is visible at any time: if the play button and the
  pause button are not both visible before the script runs (as in the initial state,
  play visible and pause hidden), then they are not both visible after any sequence of
  events dispatched on the page, among them clicks on the play button, clicks on the
  pause button and \<open>ended\<close> on the video. With a single event this says that every
  reaction preserves the predicate.
\<close>

theorem never_both_controls_visible:
  assumes "getElementById (elements s0) ''heroVideo'' = Some v"
    and "getElementById (elements s0) ''overlayPlayHeroVideo'' = Some p"
    and "getElementById (elements s0) ''pauseHeroVideo'' = Some q"
    and "listeners s0 = []"
    and "visibility p q s0 \<noteq> (True, True)"
  shows "visibility p q (dispatchAll evs (DOMContentLoaded s0)) \<noteq> (True, True)"
proof -
  have "bound v p q (DOMContentLoaded s0)"
    using assms(1-4) by (rule DOMContentLoaded_bound)
  moreover have "visibility p q (DOMContentLoaded s0) \<noteq> (True, True)"
    using assms(5) by (simp add: visibility_def DOMContentLoaded_elements)
  ultimately show ?thesis by (rule visibility_dispatchAll)
qed

theorem never_both_controls_visible_witness:
  "getElementById (elements hero_page) ''heroVideo'' = Some 0 \<and>
   getElementById (elements hero_page) ''overlayPlayHeroVideo'' = Some 1 \<and>
   getElementById (elements hero_page) ''pauseHeroVideo'' = Some 2 \<and>
   listeners hero_page = [] \<and>
   visibility 1 2 hero_page = (True, False) \<and>
   visibility 1 2
     (dispatchAll [(1, ''click''), (2, ''click''), (0, ''ended''), (1, ''click'')]
        (DOMContentLoaded hero_page)) \<noteq> (True, True)"
proof -
  have h: "getElementById (elements hero_page) ''heroVideo'' = Some 0"
    "getElementById (elements hero_page) ''overlayPlayHeroVideo'' = Some 1"
    "getElementById (elements hero_page) ''pauseHeroVideo'' = Some 2"
    "listeners hero_page = []"
    by (simp_all add: hero_page_def)
  have i: "visibility 1 2 hero_page = (True, False)"
    by (simp add: visibility_def hero_page_def)
  then have "visibility 1 2 hero_page \<noteq> (True, True)"
    by simp
  from never_both_controls_visible
    [OF h this, of "[(1, ''click''), (2, ''click''), (0, ''ended''), (1, ''click'')]"]
  show ?thesis
    using h i by simp
qed




text \<open>
  C8. Frame of the reactions: whatever event is dispatched, the listeners, the number of
  elements and, for every element, its id and its kind are unchanged, and the rest of it
  (further attributes, the style computed before the event) is not written; only the
  video receives calls; the class list of an element is either unchanged, or it is the
  play button's with \<open>d-none\<close> added or removed, or the pause button's with
  \<open>pause-hidden\<close> added or removed. No listener reads the rest of an element:
  rewriting it by any function \<open>f\<close> before the event gives the page that rewriting it
  after the event gives.
\<close>

theorem reactions_change_only_the_two_class_names:
  assumes "getElementById (elements s0) ''heroVideo'' = Some v"
    and "getElementById (elements s0) ''overlayPlayHeroVideo'' = Some p"
    and "getElementById (elements s0) ''pauseHeroVideo'' = Some q"
    and "listeners s0 = []"
  shows "(let s = DOMContentLoaded s0; s' = dispatchEvent t ty s
          in listeners s' = listeners s \<and>
             length (elements s') = length (elements s) \<and>
             (\<forall>i<length (elements s).
                elem_id (elements s' ! i) = elem_id (elements s ! i) \<and>
                media (elements s' ! i) = media (elements s ! i) \<and>
                other (elements s' ! i) = other (elements s ! i) \<and>
                (i \<noteq> v \<longrightarrow> calls (elements s' ! i) = calls (elements s ! i)) \<and>
                (classList (elements s' ! i) = classList (elements s ! i) \<or>
                 i = p \<and> classList (elements s' ! i) =
                   token_add ''d-none'' (classList (elements s ! i)) \<or>
                 i = p \<and> classList (elements s' ! i) =
                   token_remove ''d-none'' (classList (elements s ! i)) \<or>
                 i = q \<and> classList (elements s' ! i) =
                   token_add ''pause-hidden'' (classList (elements s ! i)) \<or>
                 i = q \<and> classList (elements s' ! i) =
                   token_remove ''pause-hidden'' (classList (elements s ! i)))) \<and>
             dispatchEvent t ty (DOMContentLoaded (restyle f s0)) = restyle f s')"
proof -
  let ?s = "DOMContentLoaded s0"
  have b: "bound v p q ?s"
    using assms by (rule DOMContentLoaded_bound)
  from b have neq: "v \<noteq> p" "v \<noteq> q" "p \<noteq> q"
    and len: "v < length (elements ?s)" "p < length (elements ?s)" "q < length (elements ?s)"
    by (simp_all add: bound_def)
  have independent: "dispatchEvent t ty (DOMContentLoaded (restyle f s0)) =
      restyle f (dispatchEvent t ty ?s)"
    by (simp add: DOMContentLoaded_restyle dispatchEvent_restyle [OF b])
  have frame: "listeners (dispatchEvent t ty ?s) = listeners ?s \<and>
      length (elements (dispatchEvent t ty ?s)) = length (elements ?s) \<and>
      (\<forall>i<length (elements ?s).
         elem_id (elements (dispatchEvent t ty ?s) ! i) = elem_id (elements ?s ! i) \<and>
         media (elements (dispatchEvent t ty ?s) ! i) = media (elements ?s ! i) \<and>
         other (elements (dispatchEvent t ty ?s) ! i) = other (elements ?s ! i) \<and>
         (i \<noteq> v \<longrightarrow> calls (elements (dispatchEvent t ty ?s) ! i) = calls (elements ?s ! i)) \<and>
         (classList (elements (dispatchEvent t ty ?s) ! i) = classList (elements ?s ! i) \<or>
          i = p \<and> classList (elements (dispatchEvent t ty ?s) ! i) =
            token_add ''d-none'' (classList (elements ?s ! i)) \<or>
          i = p \<and> classList (elements (dispatchEvent t ty ?s) ! i) =
            token_remove ''d-none'' (classList (elements ?s ! i)) \<or>
          i = q \<and> classList (elements (dispatchEvent t ty ?s) ! i) =
            token_add ''pause-hidden'' (classList (elements ?s ! i)) \<or>
          i = q \<and> classList (elements (dispatchEvent t ty ?s) ! i) =
            token_remove ''pause-hidden'' (classList (elements ?s ! i))))"
    using b
  proof (cases rule: dispatchEvent_cases [where t = t and ty = ty])
    case play
    then show ?thesis
      using neq len by (simp add: play_click_media [OF b] nth_list_update)
  next
    case play_throws
    then show ?thesis by (simp add: play_click_not_media [OF b])
  next
    case pause
    then show ?thesis
      using neq len by (simp add: pause_click_media [OF b] nth_list_update)
  next
    case pause_throws
    then show ?thesis by (simp add: pause_click_not_media [OF b])
  next
    case ended
    then show ?thesis
      using neq len by (simp add: ended_effect [OF b] nth_list_update)
  next
    case other
    then show ?thesis by simp
  qed
  from frame independent show ?thesis by (simp add: Let_def)
qed

theorem reactions_change_only_the_two_class_names_witness:
  "getElementById (elements hero_page) ''heroVideo'' = Some 0 \<and>
   getElementById (elements hero_page) ''overlayPlayHeroVideo'' = Some 1 \<and>
   getElementById (elements hero_page) ''pauseHeroVideo'' = Some 2 \<and>
   listeners hero_page = [] \<and>
   (let s = DOMContentLoaded hero_page; s' = dispatchEvent 1 ''click'' s
    in listeners s' = listeners s \<and>
       length (elements s') = length (elements s) \<and>
       (\<forall>i<length (elements s).
          elem_id (elements s' ! i) = elem_id (elements s ! i) \<and>
          media (elements s' ! i) = media (elements s ! i) \<and>
          other (elements s' ! i) = other (elements s ! i) \<and>
          (i \<noteq> 0 \<longrightarrow> calls (elements s' ! i) = calls (elements s ! i)) \<and>
          (classList (elements s' ! i) = classList (elements s ! i) \<or>
           i = 1 \<and> classList (elements s' ! i) =
             token_add ''d-none'' (classList (elements s ! i)) \<or>
           i = 1 \<and> classList (elements s' ! i) =
             token_remove ''d-none'' (classList (elements s ! i)) \<or>
           i = 2 \<and> classList (elements s' ! i) =
             token_add ''pause-hidden'' (classList (elements s ! i)) \<or>
           i = 2 \<and> classList (elements s' ! i) =
             token_remove ''pause-hidden'' (classList (elements s ! i)))) \<and>
       dispatchEvent 1 ''click'' (DOMContentLoaded (restyle (\<lambda>d. ''none'') hero_page)) =
         restyle (\<lambda>d. ''none'') s')"
proof -
  have h: "getElementById (elements hero_page) ''heroVideo'' = Some 0"
    "getElementById (elements hero_page) ''overlayPlayHeroVideo'' = Some 1"
    "getElementById (elements hero_page) ''pauseHeroVideo'' = Some 2"
    "listeners hero_page = []"
    by (simp_all add: hero_page_def)
  from reactions_change_only_the_two_class_names
    [OF h, of 1 "''click''" "\<lambda>d. ''none''"]
  show ?thesis
    using h by blast
qed

end
